theory Spec2Isabelle
  imports Complex_Main "HOL-Library.Log_Nat"
begin

section \<open>JavaScript numbers\<close>








section \<open>Territory planning (components/TerritoryPlanning.tsx)\<close>

















subsection \<open>Vocabulary of the allocator properties\<close>





text \<open>
  Largest remainders with ties broken by input order: entity \<open>j\<close> outranks entity \<open>i\<close> when
  its fraction is larger, or equal with \<open>j\<close> earlier. The rank of an entity is the number of
  entities that outrank it; the entities of rank below the leftover get one more.
\<close>

definition outranks :: "rat list \<Rightarrow> nat \<Rightarrow> nat \<Rightarrow> bool" where
  "outranks fr j i = (fr ! i < fr ! j \<or> (fr ! j = fr ! i \<and> j < i))"

definition rankOf :: "rat list \<Rightarrow> nat \<Rightarrow> nat" where
  "rankOf fr i = length (filter (\<lambda>j. outranks fr j i) [0..<length fr])"







definition sortedFractionals :: "rat list \<Rightarrow> (nat \<times> rat) list" where
  "sortedFractionals fs = sort_key (\<lambda>p. - snd p) (map (\<lambda>i. (i, fs ! i)) [0..<length fs])"

subsection \<open>Sample data\<close>







section \<open>The organisation tree (types.ts, data/hierarchy.ts)\<close>

text \<open>
  The interface \<^verbatim>\<open>OrgNode\<close> of types.ts. A node is its scalar fields together with the
  optional array \<^verbatim>\<open>children?: OrgNode[]\<close>; an absent property is \<open>None\<close>. The field
  \<^verbatim>\<open>id\<close> is called \<open>node_id\<close> here. Headcounts are integers (the data model of the
  specification), currency amounts are rationals.
\<close>

datatype PlanStatus = Cascaded | Drafting | PlanInProgress | NotStarted
datatype RepType = Veteran | TBH
datatype Industry = AERO | MFG

record OrgFields =
  node_id :: string
  rowNumber :: int
  name :: string
  personName :: string
  role :: string
  directReports :: "int option"
  avatarUrl :: "string option"
  avatarInitials :: "string option"
  avatarColor :: "string option"
  targetCapacity :: rat
  headcount :: int
  expectedCapacity :: rat
  validatedCapacity :: "rat option"
  difference :: rat
  status :: PlanStatus
  depth :: int
  segments :: "string list option"
  repType :: "RepType option"
  industry :: "Industry option"
  startDate :: "string option"
  allocatedHC :: "int option"
  validatedVeterans :: "int option"
  validatedTBH :: "int option"
  totalHC :: "int option"

datatype OrgNode = OrgNode (fields: OrgFields) (children: "OrgNode list option")





fun updateNodeInTree :: "OrgNode \<Rightarrow> string \<Rightarrow> (OrgNode \<Rightarrow> OrgNode) \<Rightarrow> OrgNode" where
  "updateNodeInTree (OrgNode f None) nodeId updater =
     (if node_id f = nodeId then updater (OrgNode f None) else OrgNode f None)"
| "updateNodeInTree (OrgNode f (Some ch)) nodeId updater =
     (if node_id f = nodeId then updater (OrgNode f (Some ch))
      else OrgNode f (Some (map (\<lambda>child. updateNodeInTree child nodeId updater) ch)))"

fun recalcParentHeadcounts :: "OrgNode \<Rightarrow> OrgNode" where
  "recalcParentHeadcounts (OrgNode f None) = OrgNode f None"
| "recalcParentHeadcounts (OrgNode f (Some ch)) =
     (if ch = [] then OrgNode f (Some ch)
      else
        let updatedChildren = map recalcParentHeadcounts ch;
            sum = foldl (\<lambda>s c. s + headcount (fields c)) 0 updatedChildren
        in OrgNode (f\<lparr>headcount := sum\<rparr>) (Some updatedChildren))"

definition updateHeadcountAndRollUp :: "OrgNode \<Rightarrow> string \<Rightarrow> int \<Rightarrow> OrgNode" where
  "updateHeadcountAndRollUp rootNode nodeId newHeadcount =
     (let updated = updateNodeInTree rootNode nodeId
                      (\<lambda>n. OrgNode ((fields n)\<lparr>headcount := newHeadcount\<rparr>) (children n))
      in recalcParentHeadcounts updated)"

fun flattenTree :: "OrgNode \<Rightarrow> OrgNode list" where
  "flattenTree (OrgNode f None) = [OrgNode f None]"
| "flattenTree (OrgNode f (Some ch)) =
     foldl (\<lambda>result child. result @ flattenTree child) [OrgNode f (Some ch)] ch"

subsection \<open>Vocabulary of the properties\<close>


text \<open>The ids that occur in a subtree.\<close>

definition idsOf :: "OrgNode \<Rightarrow> string set" where
  "idsOf node = set (map (\<lambda>n. node_id (fields n)) (flattenTree node))"




text \<open>A tree with every headcount erased: what is left is the shape and all other fields.\<close>

fun eraseHeadcount :: "OrgNode \<Rightarrow> OrgNode" where
  "eraseHeadcount (OrgNode f None) = OrgNode (f\<lparr>headcount := 0\<rparr>) None"
| "eraseHeadcount (OrgNode f (Some ch)) =
     OrgNode (f\<lparr>headcount := 0\<rparr>) (Some (map eraseHeadcount ch))"


text \<open>The updater that \<^verbatim>\<open>updateHeadcountAndRollUp\<close> passes to \<^verbatim>\<open>updateNodeInTree\<close>.\<close>

abbreviation setHeadcount :: "int \<Rightarrow> OrgNode \<Rightarrow> OrgNode" where
  "setHeadcount h \<equiv> (\<lambda>n. OrgNode ((fields n)\<lparr>headcount := h\<rparr>) (children n))"

subsection \<open>Sample trees\<close>

text \<open>
  A node with the given id, headcount and validated capacity; the remaining fields carry
  fixed values. \<open>exampleTree\<close> is the scenario of the specification (a root over A with
  headcount 3 and B with headcount 5); \<open>staleTree\<close> stores headcounts that do not add up.
\<close>

definition sampleFields :: "string \<Rightarrow> int \<Rightarrow> rat option \<Rightarrow> OrgFields" where
  "sampleFields i h v =
     \<lparr>node_id = i, rowNumber = 0, name = i, personName = [], role = ''AE'',
      directReports = None, avatarUrl = None, avatarInitials = None, avatarColor = None,
      targetCapacity = 0, headcount = h, expectedCapacity = 0, validatedCapacity = v,
      difference = 0, status = NotStarted, depth = 0, segments = None, repType = None,
      industry = None, startDate = None, allocatedHC = None, validatedVeterans = None,
      validatedTBH = None, totalHC = None\<rparr>"

definition nodeA :: OrgNode where "nodeA = OrgNode (sampleFields ''A'' 3 None) None"
definition nodeB :: OrgNode where "nodeB = OrgNode (sampleFields ''B'' 5 (Some 0)) None"
definition exampleTree :: OrgNode where
  "exampleTree = OrgNode (sampleFields ''root'' 8 None) (Some [nodeA, nodeB])"

definition staleBranch :: OrgNode where
  "staleBranch = OrgNode (sampleFields ''A'' 5 None) (Some [OrgNode (sampleFields ''A1'' 1 None) None])"
definition staleTree :: OrgNode where
  "staleTree = OrgNode (sampleFields ''root'' 7 None)
     (Some [staleBranch, OrgNode (sampleFields ''B'' 2 None) None])"

section \<open>Properties of the organisation tree\<close>

lemma foldl_plus_sum_list:
  fixes a :: "'a::comm_monoid_add"
  shows "foldl (\<lambda>s c. s + g c) a xs = a + sum_list (map g xs)"
  by (induction xs arbitrary: a) (simp_all add: add.assoc)

lemma foldl_append_concat:
  "foldl (\<lambda>result child. result @ g child) acc xs = acc @ concat (map g xs)"
  by (induction xs arbitrary: acc) simp_all

lemma flattenTree_Some:
  "flattenTree (OrgNode f (Some ch)) = OrgNode f (Some ch) # concat (map flattenTree ch)"
  by (simp add: foldl_append_concat)


lemma recalcParentHeadcounts_Some:
  "recalcParentHeadcounts (OrgNode f (Some ch)) =
     (if ch = [] then OrgNode f (Some ch)
      else OrgNode (f\<lparr>headcount := sum_list (map (\<lambda>c. headcount (fields (recalcParentHeadcounts c))) ch)\<rparr>)
             (Some (map recalcParentHeadcounts ch)))"
  by (simp add: foldl_plus_sum_list Let_def comp_def)

lemma OrgNode_induct [case_names Absent Present]:
  assumes "\<And>f. P (OrgNode f None)"
    and "\<And>f ch. (\<And>c. c \<in> set ch \<Longrightarrow> P c) \<Longrightarrow> P (OrgNode f (Some ch))"
  shows "P node"
  using assms by (induction node rule: eraseHeadcount.induct) blast+




















lemma idsOf_None: "idsOf (OrgNode f None) = {node_id f}"
  by (simp add: idsOf_def)

lemma idsOf_Some: "idsOf (OrgNode f (Some ch)) = insert (node_id f) (\<Union>c \<in> set ch. idsOf c)"
  by (auto simp: idsOf_def flattenTree_Some simp del: flattenTree.simps)

lemma updateNodeInTree_no_match:
  "nodeId \<notin> idsOf rootNode \<Longrightarrow> updateNodeInTree rootNode nodeId updater = rootNode"
proof (induction rootNode rule: OrgNode_induct)
  case (Absent f)
  then show ?case by (simp add: idsOf_None)
next
  case (Present f ch)
  then have "map (\<lambda>child. updateNodeInTree child nodeId updater) ch = ch"
    by (simp add: idsOf_Some map_idI)
  with Present.prems show ?case by (auto simp: idsOf_Some)
qed

text \<open>
  Claim C7. When the id occurs nowhere in the tree, \<^verbatim>\<open>updateNodeInTree\<close> returns a tree
  equal to its input, for every updater; the updater is never applied.
\<close>

theorem updateNodeInTree_absent_id:
  "nodeId \<notin> idsOf rootNode \<Longrightarrow> updateNodeInTree rootNode nodeId updater = rootNode"
  by (rule updateNodeInTree_no_match)

lemma eraseHeadcount_recalc: "eraseHeadcount (recalcParentHeadcounts node) = eraseHeadcount node"
proof (induction node rule: OrgNode_induct)
  case (Absent f)
  show ?case by simp
next
  case (Present f ch)
  then show ?case
    by (simp add: recalcParentHeadcounts_Some del: recalcParentHeadcounts.simps)
qed

lemma eraseHeadcount_update:
  "eraseHeadcount (updateNodeInTree node nodeId (setHeadcount h)) = eraseHeadcount node"
proof (induction node rule: OrgNode_induct)
  case (Absent f)
  show ?case by simp
next
  case (Present f ch)
  then show ?case by simp
qed

text \<open>
  Claim C10. \<^verbatim>\<open>updateHeadcountAndRollUp\<close> keeps the shape of the tree (the same nodes,
  the same children in the same order) and every field other than the headcount, on every
  node: with the headcounts erased, the result and the input are the same tree.
\<close>

theorem update_preserves_all_but_headcount:
  "eraseHeadcount (updateHeadcountAndRollUp rootNode nodeId newHeadcount) = eraseHeadcount rootNode"
  by (simp add: updateHeadcountAndRollUp_def eraseHeadcount_recalc eraseHeadcount_update)
















lemmas sample_defs = sampleFields_def nodeA_def nodeB_def exampleTree_def staleBranch_def
  staleTree_def





theorem updateNodeInTree_absent_id_witness:
  "''Z'' \<notin> idsOf exampleTree \<and>
   updateNodeInTree exampleTree ''Z'' (\<lambda>n. OrgNode ((fields n)\<lparr>targetCapacity := 7\<rparr>) (children n))
     = exampleTree"
proof -
  have h: "''Z'' \<notin> idsOf exampleTree"
    by (simp add: idsOf_def sample_defs)
  from updateNodeInTree_absent_id[OF h] h show ?thesis by simp
qed


theorem update_preserves_all_but_headcount_witness:
  "eraseHeadcount (updateHeadcountAndRollUp exampleTree ''A'' 10) = eraseHeadcount exampleTree \<and>
   updateHeadcountAndRollUp exampleTree ''A'' 10 \<noteq> exampleTree"
proof -
  have "updateHeadcountAndRollUp exampleTree ''A'' 10 \<noteq> exampleTree"
    by (simp add: updateHeadcountAndRollUp_def sample_defs)
  with update_preserves_all_but_headcount[of exampleTree "''A''" 10] show ?thesis by simp
qed

section \<open>Properties of binary64 rounding\<close>














section \<open>Properties of the allocator\<close>

subsection \<open>The rounding block is the largest-remainder rule on the computed fractions\<close>





text \<open>Two positions of a list whose filtered part is ordered by R are ordered by R.\<close>

lemma sorted_wrt_filter_nth:
  assumes "sorted_wrt R (filter P xs)" "a < b" "b < length xs" "P (xs ! a)" "P (xs ! b)"
  shows "R (xs ! a) (xs ! b)"
proof -
  have "xs = take b xs @ drop b xs" by simp
  then have "filter P xs = filter P (take b xs) @ filter P (drop b xs)"
    by (metis filter_append)
  with assms(1) have
    "\<forall>x \<in> set (filter P (take b xs)). \<forall>y \<in> set (filter P (drop b xs)). R x y"
    by (simp add: sorted_wrt_append)
  moreover have "xs ! a \<in> set (take b xs)"
    using assms(2,3) by (metis in_set_conv_nth length_take min.absorb2 less_imp_le nth_take)
  moreover have "xs ! b \<in> set (drop b xs)"
    using assms(3) by (metis Cons_nth_drop_Suc list.set_intros(1))
  ultimately show ?thesis
    using assms(4,5) by simp
qed

lemma sort_descending_order:
  fixes fs :: "rat list"
  defines "srt \<equiv> sort_key (\<lambda>p. - snd p) (map (\<lambda>i. (i, fs ! i)) [0..<length fs])"
  assumes "a < b" "b < length fs"
  shows "snd (srt ! b) < snd (srt ! a) \<or>
         (snd (srt ! a) = snd (srt ! b) \<and> fst (srt ! a) < fst (srt ! b))"
proof -
  let ?fr = "map (\<lambda>i. (i, fs ! i)) [0..<length fs]"
  let ?key = "\<lambda>p::nat \<times> rat. - snd p"
  have len: "length srt = length fs" by (simp add: srt_def)
  have "sorted (map ?key srt)" by (simp add: srt_def)
  then have "?key (srt ! a) \<le> ?key (srt ! b)"
    using assms(2,3) len by (simp add: sorted_iff_nth_mono_less)
  then have ge: "snd (srt ! b) \<le> snd (srt ! a)" by simp
  show ?thesis
  proof (cases "snd (srt ! b) = snd (srt ! a)")
    case False
    with ge show ?thesis by simp
  next
    case True
    define kappa where "kappa = ?key (srt ! a)"
    have "sorted_wrt (\<lambda>p q. fst p < fst q) ?fr"
      by (simp add: sorted_wrt_map)
    then have "sorted_wrt (\<lambda>p q. fst p < fst q) (filter (\<lambda>y. ?key y = kappa) ?fr)"
      by (rule sorted_wrt_filter)
    then have "sorted_wrt (\<lambda>p q. fst p < fst q) (filter (\<lambda>y. ?key y = kappa) srt)"
      by (simp add: srt_def sort_key_stable)
    then have "fst (srt ! a) < fst (srt ! b)"
      using assms(2,3) len True
      by (intro sorted_wrt_filter_nth[where R = "\<lambda>p q. fst p < fst q" and P = "\<lambda>y. ?key y = kappa"])
        (simp_all add: kappa_def)
    with True show ?thesis by simp
  qed
qed

lemma length_sortedFractionals: "length (sortedFractionals fs) = length fs"
  by (simp add: sortedFractionals_def)

lemma sortedFractionals_elem:
  assumes "k < length fs"
  shows "fst (sortedFractionals fs ! k) < length fs \<and>
         snd (sortedFractionals fs ! k) = fs ! fst (sortedFractionals fs ! k)"
proof -
  have "sortedFractionals fs ! k \<in> set (sortedFractionals fs)"
    using assms by (simp add: length_sortedFractionals)
  then show ?thesis
    by (auto simp: sortedFractionals_def)
qed

lemma distinct_fst_sortedFractionals: "distinct (map fst (sortedFractionals fs))"
  by (auto simp: sortedFractionals_def distinct_map inj_on_def)

lemma set_fst_sortedFractionals: "fst ` set (sortedFractionals fs) = {0..<length fs}"
  by (force simp: sortedFractionals_def)

lemma sortedFractionals_position:
  assumes "i < length fs"
  shows "\<exists>k < length fs. fst (sortedFractionals fs ! k) = i"
proof -
  from assms have "i \<in> fst ` set (sortedFractionals fs)"
    by (simp add: set_fst_sortedFractionals)
  then obtain p where "p \<in> set (sortedFractionals fs)" "fst p = i" by auto
  then show ?thesis
    by (metis in_set_conv_nth length_sortedFractionals)
qed

lemma sortedFractionals_inj:
  assumes "a < length fs" "b < length fs"
    and "fst (sortedFractionals fs ! a) = fst (sortedFractionals fs ! b)"
  shows "a = b"
proof -
  have eq: "map fst (sortedFractionals fs) ! a = map fst (sortedFractionals fs) ! b"
    using assms by (simp add: length_sortedFractionals)
  have "a < length (map fst (sortedFractionals fs))" "b < length (map fst (sortedFractionals fs))"
    using assms(1,2) by (simp_all add: length_sortedFractionals)
  with distinct_fst_sortedFractionals[of fs] eq show ?thesis
    by (simp only: nth_eq_iff_index_eq)
qed

lemma sortedFractionals_outranks:
  assumes "a < b" "b < length fs"
  shows "outranks fs (fst (sortedFractionals fs ! a)) (fst (sortedFractionals fs ! b))"
proof -
  from assms have a: "a < length fs" by simp
  from sort_descending_order[OF assms] sortedFractionals_elem[OF a]
    sortedFractionals_elem[OF assms(2)]
  show ?thesis
    by (auto simp: outranks_def sortedFractionals_def)
qed

lemma outranks_asym: "outranks fs j i \<Longrightarrow> \<not> outranks fs i j"
  by (auto simp: outranks_def)

lemma outranks_irrefl: "\<not> outranks fs i i"
  by (simp add: outranks_def)

lemma rankOf_position:
  assumes "k < length fs"
  shows "rankOf fs (fst (sortedFractionals fs ! k)) = k"
proof -
  let ?s = "sortedFractionals fs"
  let ?i = "fst (?s ! k)"
  have "{j. j < length fs \<and> outranks fs j ?i} = (\<lambda>a. fst (?s ! a)) ` {0..<k}"
  proof (intro set_eqI iffI)
    fix j
    assume "j \<in> {j. j < length fs \<and> outranks fs j ?i}"
    then have j: "j < length fs" and out: "outranks fs j ?i" by simp_all
    from sortedFractionals_position[OF j] obtain a where a: "a < length fs" "fst (?s ! a) = j"
      by blast
    have "a < k"
    proof (rule ccontr)
      assume "\<not> a < k"
      then consider "a = k" | "k < a" by linarith
      then show False
      proof cases
        case 1
        with a(2) out show False by (simp add: outranks_irrefl)
      next
        case 2
        from sortedFractionals_outranks[OF 2 a(1)] a(2) out show False
          by (auto dest: outranks_asym)
      qed
    qed
    with a(2) show "j \<in> (\<lambda>a. fst (?s ! a)) ` {0..<k}" by auto
  next
    fix j
    assume "j \<in> (\<lambda>a. fst (?s ! a)) ` {0..<k}"
    then obtain a where a: "a < k" "j = fst (?s ! a)" by auto
    with assms have "a < length fs" by simp
    with sortedFractionals_elem[of a fs] sortedFractionals_outranks[OF a(1) assms] a(2)
    show "j \<in> {j. j < length fs \<and> outranks fs j ?i}" by simp
  qed
  moreover have "inj_on (\<lambda>a. fst (?s ! a)) {0..<k}"
  proof (rule inj_onI)
    fix x y
    assume "x \<in> {0..<k}" "y \<in> {0..<k}" "fst (?s ! x) = fst (?s ! y)"
    with assms show "x = y"
      by (intro sortedFractionals_inj[of x fs y]) simp_all
  qed
  ultimately have "card {j. j < length fs \<and> outranks fs j ?i} = k"
    by (simp add: card_image)
  moreover have "rankOf fs ?i = card {j. j < length fs \<and> outranks fs j ?i}"
  proof -
    have "set (filter (\<lambda>j. outranks fs j ?i) [0..<length fs]) = {j. j < length fs \<and> outranks fs j ?i}"
      by auto
    moreover have "distinct (filter (\<lambda>j. outranks fs j ?i) [0..<length fs])"
      by simp
    ultimately show ?thesis
      unfolding rankOf_def by (metis distinct_card)
  qed
  ultimately show ?thesis by simp
qed


lemma rankOf_less:
  assumes "i < length fs"
  shows "rankOf fs i < length fs"
proof -
  from sortedFractionals_position[OF assms] obtain k where
    "k < length fs" "fst (sortedFractionals fs ! k) = i" by blast
  with rankOf_position[of k fs] show ?thesis by simp
qed



subsection \<open>The leftover is between zero and the number of entities\<close>















subsection \<open>The handler\<close>














subsection \<open>Distance between an allocation and the exact share\<close>













subsection \<open>Values of the sample data\<close>



































subsection \<open>The claims on the allocator\<close>















end
